theory Spec2Isabelle
  imports Main "HOL-Library.Multiset"
begin

section \<open>ShimmieStack: the PostgreSQL event store and the test stack\<close>

text \<open>
  The development follows the two TypeScript modules of the repository: the event store
  \<^verbatim>\<open>Eventbase(config)\<close> on top of a \<^verbatim>\<open>pg\<close> client, and the request helpers of
  \<^verbatim>\<open>ShimmieTestStack\<close>. Asynchronous functions are modelled by explicit state passing over
  a \<open>world\<close>: a \<^verbatim>\<open>Promise\<close> that is fulfilled is \<open>Inr\<close>, one that is rejected (or a
  \<^verbatim>\<open>throw\<close>) is \<open>Inl\<close>. All calls of one store go through one client connection, which
  runs its queries in the order in which they were issued; the model runs them in that order.
\<close>

subsection \<open>Errors, events, rows\<close>

text \<open>A JavaScript \<^verbatim>\<open>Error\<close> with its \<^verbatim>\<open>message\<close>.\<close>

datatype error = Error (message: string)

text \<open>
  \<^verbatim>\<open>Event\<close> as \<^verbatim>\<open>addEvent\<close> reads it: \<^verbatim>\<open>streamId\<close>, \<^verbatim>\<open>data\<close>, \<^verbatim>\<open>type\<close>, \<^verbatim>\<open>meta\<close>. The payloads
  \<^verbatim>\<open>data\<close> and \<^verbatim>\<open>meta\<close> are JavaScript values of a type \<open>'j\<close> that the store never inspects.
\<close>

record 'j Event =
  streamId :: string
  data :: 'j
  type :: string
  meta :: 'j

text \<open>
  The two functions outside the repository through which a payload travels:
  \<^verbatim>\<open>JSON.stringify\<close>, called by \<^verbatim>\<open>addEvent\<close>, and the reading of a JSON text into a
  \<^verbatim>\<open>jsonb\<close> column as the client later hands it back (\<open>None\<close>: the text is rejected).
  Both are parameters of the model.
\<close>

record 'j codec =
  JSON_stringify :: "'j \<Rightarrow> string"
  jsonb_in :: "string \<Rightarrow> 'j option"

text \<open>
  The columns of \<^verbatim>\<open>eventlist\<close>, in the order of the \<^verbatim>\<open>CREATE TABLE\<close> statement. A result row
  is the object the client builds: the selected columns with their values. A column stands
  for the key of that object however PostgreSQL spells it (it folds the unquoted names of the
  statements to lower case); \<open>CInt\<close> is a \<^verbatim>\<open>bigint\<close>, \<open>CTime\<close> a \<^verbatim>\<open>timestamptz\<close>, whatever
  JavaScript value the client renders them as.
\<close>

datatype column = SequenceNum | StreamId | Data | Type | Meta | LogDate

datatype 'j cell = CInt nat | CText string | CJson 'j | CTime nat

type_synonym 'j row = "(column \<times> 'j cell) list"

text \<open>A stored tuple: the event with the two columns the database fills in.\<close>

record 'j PersistedEvent = "'j Event" +
  sequenceNum :: nat
  logDate :: nat

text \<open>
  The relation \<^verbatim>\<open>eventlist\<close> together with the sequence that its \<^verbatim>\<open>bigserial\<close> column owns;
  \<open>tuples\<close> is in insertion order.
\<close>

record 'j relation =
  tuples :: "'j PersistedEvent list"
  nextval :: nat

text \<open>A call of the client: \<^verbatim>\<open>connect()\<close>, \<^verbatim>\<open>query(text, values)\<close>, \<^verbatim>\<open>end()\<close>.\<close>

datatype call = Connect | Query string "string list option" | End

text \<open>
  Everything the store can change or depend on: the console; the calls made on the client
  so far (\<open>wire\<close>); the database (\<open>eventlist\<close> is \<open>None\<close> while the table does not exist,
  \<open>clock\<close> is what \<^verbatim>\<open>now()\<close> returns); and the environment's script \<open>faults\<close>. Each call
  of the client takes the head of the script: \<open>Some e\<close> makes the call fail with \<open>e\<close>
  before it reaches the database (unreachable server, lost connection, missing privilege),
  \<open>None\<close> and the empty script let it through.
\<close>

record 'j world =
  console :: "string list"
  wire :: "call list"
  faults :: "error option list"
  eventlist :: "'j relation option"
  clock :: nat

subsection \<open>The client and the four SQL statements\<close>

definition nl :: string where
  "nl = [CHR 0x0A]"

definition insert_sql :: string where
  "insert_sql = ''INSERT into eventlist(StreamId, Data, Type, Meta) VALUES($1, $2, $3, $4) RETURNING SequenceNum, streamId, logdate, type''"

definition select_sql :: string where
  "select_sql = ''SELECT * FROM eventlist ORDER BY SequenceNum''"

definition drop_sql :: string where
  "drop_sql = ''DROP TABLE IF EXISTS eventlist''"

definition create_sql :: string where
  "create_sql = concat
     [nl, ''        CREATE TABLE IF NOT EXISTS eventlist'',
      nl, ''        ('',
      nl, ''            SequenceNum bigserial NOT NULL,'',
      nl, ''            StreamId text NOT NULL,'',
      nl, ''            Data jsonb NOT NULL,'',
      nl, ''            Type text NOT NULL,'',
      nl, ''            Meta jsonb NOT NULL,'',
      nl, ''            LogDate timestamptz NOT NULL DEFAULT now(),'',
      nl, ''            PRIMARY KEY (SequenceNum)'',
      nl, ''        );'']"

text \<open>The largest value of a \<^verbatim>\<open>bigserial\<close> sequence.\<close>

definition bigint_max :: nat where
  "bigint_max = 9223372036854775807"

text \<open>\<^verbatim>\<open>SELECT *\<close>: all six columns; \<^verbatim>\<open>RETURNING SequenceNum, streamId, logdate, type\<close>: four.\<close>

definition select_star :: "'j PersistedEvent \<Rightarrow> 'j row" where
  "select_star p =
     [(SequenceNum, CInt (sequenceNum p)), (StreamId, CText (streamId p)),
      (Data, CJson (data p)), (Type, CText (type p)),
      (Meta, CJson (meta p)), (LogDate, CTime (logDate p))]"

definition returning :: "'j PersistedEvent \<Rightarrow> 'j row" where
  "returning p =
     [(SequenceNum, CInt (sequenceNum p)), (StreamId, CText (streamId p)),
      (LogDate, CTime (logDate p)), (Type, CText (type p))]"

definition relation_missing :: error where
  "relation_missing = Error ''relation \"eventlist\" does not exist''"

text \<open>
  \<^verbatim>\<open>CREATE TABLE IF NOT EXISTS\<close>: an absent table is created empty, with its sequence at 1;
  an existing one is left as it is.
\<close>

definition exec_create :: "'j world \<Rightarrow> (error + 'j row list) \<times> 'j world" where
  "exec_create w =
     (case eventlist w of
        None \<Rightarrow> (Inr [], w\<lparr>eventlist := Some \<lparr>tuples = [], nextval = 1\<rparr>\<rparr>)
      | Some t \<Rightarrow> (Inr [], w))"

text \<open>\<^verbatim>\<open>DROP TABLE IF EXISTS\<close>: the table goes, with the sequence it owns.\<close>

definition exec_drop :: "'j world \<Rightarrow> (error + 'j row list) \<times> 'j world" where
  "exec_drop w = (Inr [], w\<lparr>eventlist := None\<rparr>)"

text \<open>\<^verbatim>\<open>SELECT * FROM eventlist ORDER BY SequenceNum\<close>.\<close>

definition exec_select :: "'j world \<Rightarrow> (error + 'j row list) \<times> 'j world" where
  "exec_select w =
     (case eventlist w of
        None \<Rightarrow> (Inl relation_missing, w)
      | Some t \<Rightarrow> (Inr (map select_star (sort_key sequenceNum (tuples t))), w))"

text \<open>
  \<^verbatim>\<open>INSERT ... VALUES($1, $2, $3, $4) RETURNING ...\<close>: the statement needs four parameters;
  \<^verbatim>\<open>$2\<close> and \<^verbatim>\<open>$4\<close> are read as \<^verbatim>\<open>jsonb\<close>; \<^verbatim>\<open>SequenceNum\<close> takes the next value of the
  sequence, which stays consumed when the primary key then rejects the tuple;
  \<^verbatim>\<open>LogDate\<close> takes \<^verbatim>\<open>now()\<close>.
\<close>

definition exec_insert ::
  "'j codec \<Rightarrow> string list option \<Rightarrow> 'j world \<Rightarrow> (error + 'j row list) \<times> 'j world" where
  "exec_insert cd values w =
     (case eventlist w of
        None \<Rightarrow> (Inl relation_missing, w)
      | Some t \<Rightarrow>
          (case values of
             Some [sid, d, ty, m] \<Rightarrow>
               (case (jsonb_in cd d, jsonb_in cd m) of
                  (Some dj, Some mj) \<Rightarrow>
                    (let n = nextval t in
                     if bigint_max < n then
                       (Inl (Error ''nextval: reached maximum value of sequence''), w)
                     else if n \<in> set (map sequenceNum (tuples t)) then
                       (Inl (Error ''duplicate key value violates unique constraint''),
                        w\<lparr>eventlist := Some (t\<lparr>nextval := n + 1\<rparr>)\<rparr>)
                     else
                       (let p = \<lparr>streamId = sid, data = dj, type = ty, meta = mj,
                                 sequenceNum = n, logDate = clock w\<rparr>
                        in (Inr [returning p],
                            w\<lparr>eventlist := Some \<lparr>tuples = tuples t @ [p], nextval = n + 1\<rparr>\<rparr>)))
                | _ \<Rightarrow> (Inl (Error ''invalid input syntax for type json''), w))
           | _ \<Rightarrow> (Inl (Error ''bind message supplies the wrong number of parameters''), w)))"

definition exec_sql ::
  "'j codec \<Rightarrow> string \<Rightarrow> string list option \<Rightarrow> 'j world \<Rightarrow> (error + 'j row list) \<times> 'j world" where
  "exec_sql cd query values w =
     (if query = insert_sql then exec_insert cd values w
      else if query = select_sql then exec_select w
      else if query = create_sql then exec_create w
      else if query = drop_sql then exec_drop w
      else (Inl (Error ''syntax error''), w))"

text \<open>
  The environment's verdict on the next call of the client, and the world once the call is
  made: the call is on the wire and the script has moved on.
\<close>

definition verdict :: "'j world \<Rightarrow> error option" where
  "verdict w = (case faults w of [] \<Rightarrow> None | f # fs \<Rightarrow> f)"

definition called :: "call \<Rightarrow> 'j world \<Rightarrow> 'j world" where
  "called c w = w\<lparr>wire := wire w @ [c], faults := tl (faults w)\<rparr>"

text \<open>\<^verbatim>\<open>connection.connect()\<close>, \<^verbatim>\<open>connection.query(query, values)\<close>, \<^verbatim>\<open>connection.end()\<close>.\<close>

definition Client_connect :: "'j world \<Rightarrow> (error + unit) \<times> 'j world" where
  "Client_connect w =
     (case verdict w of
        Some e \<Rightarrow> (Inl e, called Connect w)
      | None \<Rightarrow> (Inr (), called Connect w))"

definition Client_query ::
  "'j codec \<Rightarrow> string \<Rightarrow> string list option \<Rightarrow> 'j world \<Rightarrow> (error + 'j row list) \<times> 'j world" where
  "Client_query cd query values w =
     (case verdict w of
        Some e \<Rightarrow> (Inl e, called (Query query values) w)
      | None \<Rightarrow> exec_sql cd query values (called (Query query values) w))"

definition Client_end :: "'j world \<Rightarrow> (error + unit) \<times> 'j world" where
  "Client_end w =
     (case verdict w of
        Some e \<Rightarrow> (Inl e, called End w)
      | None \<Rightarrow> (Inr (), called End w))"

subsection \<open>The event store\<close>


definition truthy :: "string option \<Rightarrow> bool" where
  "truthy s = (case s of None \<Rightarrow> False | Some t \<Rightarrow> t \<noteq> [])"



text \<open>How a template literal prints the \<^verbatim>\<open>values\<close> array: joined by commas.\<close>

fun join_commas :: "string list \<Rightarrow> string" where
  "join_commas [] = []"
| "join_commas [v] = v"
| "join_commas (v # vs) = v @ '','' @ join_commas vs"

definition show_values :: "string list option \<Rightarrow> string" where
  "show_values values = (case values of None \<Rightarrow> ''undefined'' | Some vs \<Rightarrow> join_commas vs)"

text \<open>
  \<^verbatim>\<open>runQuery(query, values)\<close>: one call of \<^verbatim>\<open>connection.query\<close>, with the values when there
  are any; the rows on success; on failure a line on \<^verbatim>\<open>console.error\<close> and the same error
  thrown again.
\<close>

definition runQuery ::
  "'j codec \<Rightarrow> string \<Rightarrow> string list option \<Rightarrow> 'j world \<Rightarrow> (error + 'j row list) \<times> 'j world" where
  "runQuery cd query values w =
     (case (case values of
              Some vs \<Rightarrow> Client_query cd query (Some vs) w
            | None \<Rightarrow> Client_query cd query None w) of
        (Inr rows, w') \<Rightarrow> (Inr rows, w')
      | (Inl err, w') \<Rightarrow>
          (Inl err,
           w'\<lparr>console := console w' @
                 [''Query error <'' @ query @ ''> ['' @ show_values values @ '']: '' @ message err]\<rparr>))"

definition addEvent ::
  "'j codec \<Rightarrow> 'j Event \<Rightarrow> 'j world \<Rightarrow> (error + 'j row list) \<times> 'j world" where
  "addEvent cd event w =
     runQuery cd insert_sql
       (Some [streamId event, JSON_stringify cd (data event),
              type event, JSON_stringify cd (meta event)]) w"

definition getAllEventsInOrder :: "'j codec \<Rightarrow> 'j world \<Rightarrow> (error + 'j row list) \<times> 'j world" where
  "getAllEventsInOrder cd w = runQuery cd select_sql None w"

definition createTables :: "'j codec \<Rightarrow> 'j world \<Rightarrow> (error + 'j row list) \<times> 'j world" where
  "createTables cd w = runQuery cd create_sql None w"

text \<open>
  \<^verbatim>\<open>dropTables\<close> returns the promise of \<^verbatim>\<open>runQuery\<close> without awaiting it, so its
  \<^verbatim>\<open>try\<close>/\<^verbatim>\<open>catch\<close> never sees a rejection: the error of \<^verbatim>\<open>runQuery\<close> passes unchanged.
\<close>

definition dropTables :: "'j codec \<Rightarrow> 'j world \<Rightarrow> (error + 'j row list) \<times> 'j world" where
  "dropTables cd w = runQuery cd drop_sql None w"

text \<open>\<^verbatim>\<open>reset\<close>: \<^verbatim>\<open>await dropTables(); await createTables();\<close>\<close>

definition reset :: "'j codec \<Rightarrow> 'j world \<Rightarrow> (error + unit) \<times> 'j world" where
  "reset cd w =
     (case dropTables cd w of
        (Inl err, w1) \<Rightarrow> (Inl err, w1)
      | (Inr _, w1) \<Rightarrow>
          (case createTables cd w1 of
             (Inl err, w2) \<Rightarrow> (Inl err, w2)
           | (Inr _, w2) \<Rightarrow> (Inr (), w2)))"

text \<open>
  \<^verbatim>\<open>init\<close>: \<^verbatim>\<open>await connection.connect(); createTables();\<close> The call of \<^verbatim>\<open>createTables\<close> is
  not awaited: its query is issued (and is the next one the connection runs), but its
  outcome reaches nobody, and \<^verbatim>\<open>init\<close> is fulfilled whatever it is.
\<close>

definition init :: "'j codec \<Rightarrow> 'j world \<Rightarrow> (error + unit) \<times> 'j world" where
  "init cd w =
     (case Client_connect w of
        (Inl err, w1) \<Rightarrow> (Inl err, w1)
      | (Inr _, w1) \<Rightarrow> (Inr (), snd (createTables cd w1)))"

text \<open>\<^verbatim>\<open>shutdown\<close>: \<^verbatim>\<open>await connection.end();\<close>\<close>

definition shutdown :: "'j world \<Rightarrow> (error + unit) \<times> 'j world" where
  "shutdown w = Client_end w"

text \<open>
  A sequence of \<^verbatim>\<open>addEvent\<close> calls, each awaited, with what each call returned or threw.
\<close>

fun addEvents ::
  "'j codec \<Rightarrow> 'j Event list \<Rightarrow> 'j world \<Rightarrow> (error + 'j row list) list \<times> 'j world" where
  "addEvents cd [] w = ([], w)"
| "addEvents cd (event # events) w =
     (case addEvent cd event w of
        (out, w1) \<Rightarrow> (case addEvents cd events w1 of (outs, w2) \<Rightarrow> (out # outs, w2)))"

text \<open>The rows that the successful calls of a sequence handed back.\<close>

definition returned :: "(error + 'j row list) list \<Rightarrow> 'j row list" where
  "returned outs = concat (map (\<lambda>out. case out of Inl _ \<Rightarrow> [] | Inr rows \<Rightarrow> rows) outs)"

subsection \<open>Observations on the database and on result rows\<close>

text \<open>The stored log, and the key that \<^verbatim>\<open>PRIMARY KEY (SequenceNum)\<close> keeps unique.\<close>

definition stored :: "'j world \<Rightarrow> 'j PersistedEvent list" where
  "stored w = (case eventlist w of None \<Rightarrow> [] | Some t \<Rightarrow> tuples t)"

definition primary_key :: "'j world \<Rightarrow> bool" where
  "primary_key w = distinct (map sequenceNum (stored w))"

text \<open>Reading a column of a result row; the sequence number of a row.\<close>

definition col :: "'j row \<Rightarrow> column \<Rightarrow> 'j cell option" where
  "col r c = map_of r c"

definition sequenceNum_of :: "'j row \<Rightarrow> nat option" where
  "sequenceNum_of r = (case col r SequenceNum of Some (CInt n) \<Rightarrow> Some n | _ \<Rightarrow> None)"

text \<open>
  The tuple that the \<^verbatim>\<open>INSERT\<close> of \<^verbatim>\<open>addEvent\<close> builds for an event, when the table exists and
  both payload texts are accepted.
\<close>

definition the_tuple :: "'j codec \<Rightarrow> 'j Event \<Rightarrow> 'j world \<Rightarrow> 'j PersistedEvent option" where
  "the_tuple cd event w =
     (case (eventlist w, jsonb_in cd (JSON_stringify cd (data event)),
            jsonb_in cd (JSON_stringify cd (meta event))) of
        (Some t, Some dj, Some mj) \<Rightarrow>
          Some \<lparr>streamId = streamId event, data = dj, type = type event, meta = mj,
                sequenceNum = nextval t, logDate = clock w\<rparr>
      | _ \<Rightarrow> None)"

subsection \<open>The test stack's request helpers\<close>

text \<open>
  A \<^verbatim>\<open>supertest.Test\<close> as far as the helpers build it: method, path, and the header object
  that \<^verbatim>\<open>req.set(field, value)\<close> writes.
\<close>

record Test =
  http_method :: string
  url :: string
  header :: "string \<rightharpoonup> string"

definition set_header :: "string \<Rightarrow> string \<Rightarrow> Test \<Rightarrow> Test" where
  "set_header field val req = req\<lparr>header := (header req)(field \<mapsto> val)\<rparr>"

text \<open>The header name as the source writes it: \<^verbatim>\<open>'\'Authorization\''\<close>, quotes included.\<close>

definition quoted_Authorization :: string where
  "quoted_Authorization = [CHR 0x27] @ ''Authorization'' @ [CHR 0x27]"

text \<open>
  \<^verbatim>\<open>prepareRequest(method)(path, headers, withAuth = true)\<close>, closed over
  \<^verbatim>\<open>authHeaderValue\<close>; \<^verbatim>\<open>headers\<close> is given by its \<^verbatim>\<open>Object.entries\<close>.
\<close>

definition prepareRequest ::
  "string option \<Rightarrow> string \<Rightarrow> string \<Rightarrow> (string \<times> string) list option \<Rightarrow> bool \<Rightarrow> Test" where
  "prepareRequest authHeaderValue meth path headers withAuth =
     (let req = \<lparr>http_method = meth, url = path, header = Map.empty\<rparr>;
          req1 = (if truthy authHeaderValue \<and> withAuth
                  then set_header quoted_Authorization (''Bearer '' @ the authHeaderValue) req
                  else req)
      in case headers of
           None \<Rightarrow> req1
         | Some hs \<Rightarrow> fold (\<lambda>h r. set_header (fst h) (snd h) r) hs req1)"

text \<open>\<^verbatim>\<open>TestRequestParams\<close> and \<^verbatim>\<open>TestRequestWithBodyParams\<close>.\<close>

record TestRequestParams =
  path :: string
  headers :: "(string \<times> string) list option"
  expectedResponseCode :: "nat option"

record 'b TestRequestWithBodyParams = TestRequestParams +
  body :: "'b option"

text \<open>
  What a helper sends: the prepared request, the status passed to \<^verbatim>\<open>expect\<close>, and the
  argument of \<^verbatim>\<open>send\<close> (\<open>EmptyObject\<close> is the \<^verbatim>\<open>{}\<close> of \<^verbatim>\<open>body ?? {}\<close>).
\<close>

datatype 'b sent = NoBody | EmptyObject | Body 'b

record 'b Sent =
  request :: Test
  expect :: nat
  send :: "'b sent"

definition testGet :: "string option \<Rightarrow> TestRequestParams \<Rightarrow> 'b Sent" where
  "testGet authHeaderValue params =
     \<lparr>request = prepareRequest authHeaderValue ''get'' (path params) (headers params) True,
      expect = (case expectedResponseCode params of None \<Rightarrow> 200 | Some c \<Rightarrow> c),
      send = NoBody\<rparr>"

definition testPost :: "string option \<Rightarrow> 'b TestRequestWithBodyParams \<Rightarrow> 'b Sent" where
  "testPost authHeaderValue params =
     \<lparr>request = prepareRequest authHeaderValue ''post'' (path params) (headers params) True,
      expect = (case expectedResponseCode params of None \<Rightarrow> 200 | Some c \<Rightarrow> c),
      send = (case body params of None \<Rightarrow> EmptyObject | Some b \<Rightarrow> Body b)\<rparr>"

definition testPut :: "string option \<Rightarrow> 'b TestRequestWithBodyParams \<Rightarrow> 'b Sent" where
  "testPut authHeaderValue params =
     \<lparr>request = prepareRequest authHeaderValue ''put'' (path params) (headers params) True,
      expect = (case expectedResponseCode params of None \<Rightarrow> 200 | Some c \<Rightarrow> c),
      send = (case body params of None \<Rightarrow> EmptyObject | Some b \<Rightarrow> Body b)\<rparr>"

definition testDelete :: "string option \<Rightarrow> TestRequestParams \<Rightarrow> 'b Sent" where
  "testDelete authHeaderValue params =
     \<lparr>request = prepareRequest authHeaderValue ''delete'' (path params) (headers params) True,
      expect = (case expectedResponseCode params of None \<Rightarrow> 200 | Some c \<Rightarrow> c),
      send = NoBody\<rparr>"

text \<open>The value a caller's own \<^verbatim>\<open>headers\<close> give to a field: the last entry of that name.\<close>

definition supplied :: "(string \<times> string) list option \<Rightarrow> string \<rightharpoonup> string" where
  "supplied hs = (case hs of None \<Rightarrow> Map.empty | Some l \<Rightarrow> map_of (rev l))"

subsection \<open>Concrete inputs\<close>

text \<open>
  The two payloads of the order scenario, \<^verbatim>\<open>{}\<close> and \<^verbatim>\<open>{amount: 10}\<close>, with their JSON
  texts, and the two events of the scenario.
\<close>

datatype payload = Obj_empty | Obj_amount_10

definition scenario_codec :: "payload codec" where
  "scenario_codec =
     \<lparr>JSON_stringify =
        (\<lambda>v. case v of Obj_empty \<Rightarrow> ''{}'' | Obj_amount_10 \<Rightarrow> ''{\"amount\":10}''),
      jsonb_in =
        (\<lambda>s. if s = ''{}'' then Some Obj_empty
             else if s = ''{\"amount\":10}'' then Some Obj_amount_10
             else None)\<rparr>"

definition order_created :: "payload Event" where
  "order_created =
     \<lparr>streamId = ''order-1'', data = Obj_amount_10, type = ''OrderCreated'', meta = Obj_empty\<rparr>"

definition order_shipped :: "payload Event" where
  "order_shipped =
     \<lparr>streamId = ''order-1'', data = Obj_empty, type = ''OrderShipped'', meta = Obj_empty\<rparr>"

text \<open>A database without the table, and one with the empty table, no fault ahead.\<close>

definition no_table :: "payload world" where
  "no_table = \<lparr>console = [], wire = [], faults = [], eventlist = None, clock = 1000\<rparr>"

definition empty_log :: "payload world" where
  "empty_log =
     \<lparr>console = [], wire = [], faults = [], eventlist = Some \<lparr>tuples = [], nextval = 1\<rparr>,
      clock = 1000\<rparr>"

text \<open>The scenario run: what the two calls hand back and store.\<close>

definition created_row :: "payload row" where
  "created_row =
     [(SequenceNum, CInt 1), (StreamId, CText ''order-1''),
      (LogDate, CTime 1000), (Type, CText ''OrderCreated'')]"

definition shipped_row :: "payload row" where
  "shipped_row =
     [(SequenceNum, CInt 2), (StreamId, CText ''order-1''),
      (LogDate, CTime 1000), (Type, CText ''OrderShipped'')]"

definition created_tuple :: "payload PersistedEvent" where
  "created_tuple =
     \<lparr>streamId = ''order-1'', data = Obj_amount_10, type = ''OrderCreated'',
      meta = Obj_empty, sequenceNum = 1, logDate = 1000\<rparr>"

definition shipped_tuple :: "payload PersistedEvent" where
  "shipped_tuple =
     \<lparr>streamId = ''order-1'', data = Obj_empty, type = ''OrderShipped'',
      meta = Obj_empty, sequenceNum = 2, logDate = 1000\<rparr>"

definition insert_created :: call where
  "insert_created =
     Query insert_sql (Some [''order-1'', ''{\"amount\":10}'', ''OrderCreated'', ''{}''])"

definition insert_shipped :: call where
  "insert_shipped = Query insert_sql (Some [''order-1'', ''{}'', ''OrderShipped'', ''{}''])"

definition one_order :: "payload world" where
  "one_order =
     empty_log\<lparr>wire := [insert_created],
               eventlist := Some \<lparr>tuples = [created_tuple], nextval = 2\<rparr>\<rparr>"

definition two_orders :: "payload world" where
  "two_orders =
     empty_log\<lparr>wire := [insert_created, insert_shipped],
               eventlist := Some \<lparr>tuples = [created_tuple, shipped_tuple], nextval = 3\<rparr>\<rparr>"

text \<open>The second world after \<^verbatim>\<open>getAllEventsInOrder\<close>, and after \<^verbatim>\<open>reset\<close>.\<close>

definition two_orders_read :: "payload world" where
  "two_orders_read =
     two_orders\<lparr>wire := [insert_created, insert_shipped, Query select_sql None]\<rparr>"

definition two_orders_reset :: "payload world" where
  "two_orders_reset =
     two_orders\<lparr>wire := [insert_created, insert_shipped, Query drop_sql None,
                         Query create_sql None],
                eventlist := Some \<lparr>tuples = [], nextval = 1\<rparr>\<rparr>"

text \<open>
  A database without the table on which the connection is accepted and the next call, the
  \<^verbatim>\<open>CREATE TABLE\<close> of \<^verbatim>\<open>init\<close>, is refused; and the world that \<^verbatim>\<open>init\<close> leaves there.
\<close>

definition create_denied :: "payload world" where
  "create_denied =
     no_table\<lparr>faults := [None, Some (Error ''permission denied for schema public'')]\<rparr>"

definition create_denied_connected :: "payload world" where
  "create_denied_connected =
     no_table\<lparr>wire := [Connect],
              faults := [Some (Error ''permission denied for schema public'')]\<rparr>"

definition create_denied_after :: "payload world" where
  "create_denied_after =
     no_table\<lparr>console :=
                [''Query error <'' @ create_sql @
                 ''> [undefined]: permission denied for schema public''],
              wire := [Connect, Query create_sql None]\<rparr>"

section \<open>Properties\<close>

subsection \<open>The statements and the client\<close>

lemma sql_distinct [simp]:
  "insert_sql \<noteq> select_sql" "insert_sql \<noteq> create_sql" "insert_sql \<noteq> drop_sql"
  "select_sql \<noteq> create_sql" "select_sql \<noteq> drop_sql" "create_sql \<noteq> drop_sql"
  "select_sql \<noteq> insert_sql" "create_sql \<noteq> insert_sql" "drop_sql \<noteq> insert_sql"
  "create_sql \<noteq> select_sql" "drop_sql \<noteq> select_sql" "drop_sql \<noteq> create_sql"
  by (simp_all add: insert_sql_def select_sql_def create_sql_def drop_sql_def nl_def)

lemma exec_sql_simps [simp]:
  "exec_sql cd insert_sql values w = exec_insert cd values w"
  "exec_sql cd select_sql values w = exec_select w"
  "exec_sql cd create_sql values w = exec_create w"
  "exec_sql cd drop_sql values w = exec_drop w"
  by (simp_all add: exec_sql_def)

text \<open>What a fulfilled \<^verbatim>\<open>addEvent\<close> has done.\<close>

lemma addEvent_Inr:
  assumes "addEvent cd event w = (Inr rows, w')"
  shows "\<exists>t p. eventlist w = Some t \<and> the_tuple cd event w = Some p
           \<and> nextval t \<le> bigint_max \<and> nextval t \<notin> set (map sequenceNum (tuples t))
           \<and> rows = [returning p]
           \<and> w' = (called (Query insert_sql
                       (Some [streamId event, JSON_stringify cd (data event),
                              type event, JSON_stringify cd (meta event)])) w)
                   \<lparr>eventlist := Some \<lparr>tuples = tuples t @ [p], nextval = nextval t + 1\<rparr>\<rparr>"
  using assms
  by (auto simp: addEvent_def runQuery_def Client_query_def verdict_def called_def exec_insert_def
        the_tuple_def Let_def
      split: list.splits option.splits sum.splits if_splits prod.splits)

lemma addEvent_Inl:
  assumes "addEvent cd event w = (Inl e, w')"
  shows "stored w' = stored w"
  using assms
  by (auto simp: addEvent_def runQuery_def Client_query_def verdict_def called_def exec_insert_def
        stored_def Let_def
      split: list.splits option.splits sum.splits if_splits prod.splits)

lemma addEvent_appends:
  assumes "addEvent cd event w = (Inr rows, w')"
  shows "\<exists>p. rows = [returning p] \<and> stored w' = stored w @ [p]
           \<and> sequenceNum p \<notin> set (map sequenceNum (stored w))
           \<and> the_tuple cd event w = Some p"
proof -
  from addEvent_Inr [OF assms] obtain t p where
    t: "eventlist w = Some t" and p: "the_tuple cd event w = Some p"
    and new: "nextval t \<notin> set (map sequenceNum (tuples t))"
    and rows: "rows = [returning p]"
    and w': "w' = (called (Query insert_sql
                       (Some [streamId event, JSON_stringify cd (data event),
                              type event, JSON_stringify cd (meta event)])) w)
                   \<lparr>eventlist := Some \<lparr>tuples = tuples t @ [p], nextval = nextval t + 1\<rparr>\<rparr>"
    by blast
  from p t have "sequenceNum p = nextval t"
    by (auto simp: the_tuple_def split: option.splits)
  with t new rows w' p show ?thesis
    by (simp add: stored_def)
qed

lemma sequenceNum_of_simps [simp]:
  "sequenceNum_of (returning p) = Some (sequenceNum p)"
  "sequenceNum_of (select_star p) = Some (sequenceNum p)"
  by (simp_all add: sequenceNum_of_def col_def returning_def select_star_def)

text \<open>
  A sequence of calls only appends: one tuple per fulfilled call, in call order, under keys
  that were not in the log before.
\<close>

lemma addEvents_stored:
  assumes "addEvents cd events w = (outs, w1)"
  shows "\<exists>ps. stored w1 = stored w @ ps \<and> returned outs = map returning ps
           \<and> set (map sequenceNum ps) \<inter> set (map sequenceNum (stored w)) = {}
           \<and> (primary_key w \<longrightarrow> primary_key w1)"
  using assms
proof (induction events arbitrary: w outs w1)
  case Nil
  then show ?case by (simp add: returned_def)
next
  case (Cons event events)
  obtain out wa where step: "addEvent cd event w = (out, wa)"
    by (cases "addEvent cd event w")
  obtain outs' wb where rest: "addEvents cd events wa = (outs', wb)"
    by (cases "addEvents cd events wa")
  from Cons.prems step rest have outs: "outs = out # outs'" and w1: "w1 = wb"
    by simp_all
  from Cons.IH [OF rest] obtain ps where
    ps: "stored wb = stored wa @ ps" "returned outs' = map returning ps"
    and fresh: "set (map sequenceNum ps) \<inter> set (map sequenceNum (stored wa)) = {}"
    and pk: "primary_key wa \<longrightarrow> primary_key wb"
    by blast
  show ?case
  proof (cases out)
    case (Inl e)
    with step have "stored wa = stored w" by (simp add: addEvent_Inl)
    with ps fresh pk Inl outs w1 show ?thesis
      by (auto simp: returned_def primary_key_def)
  next
    case (Inr rows)
    with step addEvent_appends obtain p where
      p: "rows = [returning p]" "stored wa = stored w @ [p]"
         "sequenceNum p \<notin> set (map sequenceNum (stored w))"
      by blast
    then have keep: "primary_key w \<longrightarrow> primary_key wa"
      by (simp add: primary_key_def)
    have "stored wb = stored w @ (p # ps)"
      using ps p by simp
    moreover have "returned outs = map returning (p # ps)"
      using ps p Inr outs by (simp add: returned_def)
    moreover have "set (map sequenceNum (p # ps)) \<inter> set (map sequenceNum (stored w)) = {}"
      using fresh p by auto
    moreover have "primary_key w \<longrightarrow> primary_key wb"
      using keep pk by blast
    ultimately show ?thesis
      using w1 by blast
  qed
qed

lemma getAllEventsInOrder_Inr:
  assumes "getAllEventsInOrder cd w = (Inr rs, w')"
  shows "rs = map select_star (sort_key sequenceNum (stored w)) \<and> stored w' = stored w
           \<and> eventlist w \<noteq> None"
  using assms
  by (auto simp: getAllEventsInOrder_def runQuery_def Client_query_def verdict_def called_def
        exec_select_def stored_def
      split: list.splits option.splits sum.splits if_splits prod.splits)

lemma addEvent_fulfilled:
  assumes "eventlist w = Some t" and "verdict w = None"
    and "jsonb_in cd (JSON_stringify cd (data event)) = Some dj"
    and "jsonb_in cd (JSON_stringify cd (meta event)) = Some mj"
    and "nextval t \<le> bigint_max"
    and "nextval t \<notin> set (map sequenceNum (tuples t))"
  shows "\<exists>p w'. addEvent cd event w = (Inr [returning p], w') \<and> sequenceNum p = nextval t
           \<and> eventlist w' = Some \<lparr>tuples = tuples t @ [p], nextval = nextval t + 1\<rparr>
           \<and> faults w' = tl (faults w)"
  using assms
  by (simp add: addEvent_def runQuery_def Client_query_def called_def exec_insert_def Let_def)

text \<open>
  With no fault ahead and payload texts that are accepted, a sequence of calls on a table
  whose keys lie below the sequence gets consecutive numbers, none left out.
\<close>

lemma addEvents_consecutive:
  assumes "eventlist w = Some t"
    and "\<forall>p\<in>set (tuples t). sequenceNum p < nextval t"
    and "faults w = []"
    and "\<forall>e\<in>set events. jsonb_in cd (JSON_stringify cd (data e)) \<noteq> None
                          \<and> jsonb_in cd (JSON_stringify cd (meta e)) \<noteq> None"
    and "nextval t + length events \<le> Suc bigint_max"
  shows "map sequenceNum_of (returned (fst (addEvents cd events w)))
           = map Some [nextval t ..< nextval t + length events]"
  using assms
proof (induction events arbitrary: w t)
  case Nil
  then show ?case by (simp add: returned_def)
next
  case (Cons e es)
  from Cons.prems(4) obtain dj mj where
    js: "jsonb_in cd (JSON_stringify cd (data e)) = Some dj"
        "jsonb_in cd (JSON_stringify cd (meta e)) = Some mj"
    by auto
  have v: "verdict w = None"
    using Cons.prems(3) by (simp add: verdict_def)
  have le: "nextval t \<le> bigint_max"
    using Cons.prems(5) by simp
  have new: "nextval t \<notin> set (map sequenceNum (tuples t))"
    using Cons.prems(2) by auto
  from addEvent_fulfilled [OF Cons.prems(1) v js le new] obtain p w' where
    step: "addEvent cd e w = (Inr [returning p], w')" and p: "sequenceNum p = nextval t"
    and t': "eventlist w' = Some \<lparr>tuples = tuples t @ [p], nextval = nextval t + 1\<rparr>"
    and f': "faults w' = tl (faults w)"
    by blast
  let ?t' = "\<lparr>tuples = tuples t @ [p], nextval = nextval t + 1\<rparr>"
  have "map sequenceNum_of (returned (fst (addEvents cd es w')))
          = map Some [nextval ?t' ..< nextval ?t' + length es]"
  proof (rule Cons.IH [OF t'])
    show "\<forall>q\<in>set (tuples ?t'). sequenceNum q < nextval ?t'"
      using Cons.prems(2) p by (auto simp: less_Suc_eq)
    show "faults w' = []"
      using f' Cons.prems(3) by simp
    show "\<forall>e\<in>set es. jsonb_in cd (JSON_stringify cd (data e)) \<noteq> None
                       \<and> jsonb_in cd (JSON_stringify cd (meta e)) \<noteq> None"
      using Cons.prems(4) by simp
    show "nextval ?t' + length es \<le> Suc bigint_max"
      using Cons.prems(5) by simp
  qed
  then have IH: "map sequenceNum_of (returned (fst (addEvents cd es w')))
                   = map Some [Suc (nextval t) ..< Suc (nextval t + length es)]"
    by simp
  obtain outs w'' where rest: "addEvents cd es w' = (outs, w'')"
    by (cases "addEvents cd es w'")
  have run: "fst (addEvents cd (e # es) w) = Inr [returning p] # outs"
    using step rest by simp
  have "returned (Inr [returning p] # outs) = returning p # returned outs"
    by (simp add: returned_def)
  moreover have "[nextval t ..< nextval t + length (e # es)]
                   = nextval t # [Suc (nextval t) ..< Suc (nextval t + length es)]"
  proof -
    have lt: "nextval t < nextval t + length (e # es)" by simp
    have eq: "nextval t + length (e # es) = Suc (nextval t + length es)" by simp
    from upt_conv_Cons [OF lt] show ?thesis unfolding eq .
  qed
  ultimately show ?case
    using IH rest run p by (simp del: upt_Suc length_Cons)
qed

subsection \<open>The scenario, run\<close>

lemmas scenario_defs =
  scenario_codec_def order_created_def order_shipped_def empty_log_def no_table_def
  created_row_def shipped_row_def created_tuple_def shipped_tuple_def
  insert_created_def insert_shipped_def one_order_def two_orders_def
  two_orders_read_def two_orders_reset_def

lemmas store_defs =
  addEvent_def getAllEventsInOrder_def createTables_def dropTables_def runQuery_def
  Client_query_def Client_connect_def Client_end_def verdict_def called_def
  exec_insert_def exec_select_def exec_create_def exec_drop_def bigint_max_def
  returning_def select_star_def

lemma run_created:
  "addEvent scenario_codec order_created empty_log = (Inr [created_row], one_order)"
  by (simp add: store_defs scenario_defs)

lemma run_shipped:
  "addEvent scenario_codec order_shipped one_order = (Inr [shipped_row], two_orders)"
  by (simp add: store_defs scenario_defs)

lemma run_both:
  "addEvents scenario_codec [order_created, order_shipped] empty_log =
     ([Inr [created_row], Inr [shipped_row]], two_orders)"
  by (simp add: run_created run_shipped)

lemma run_select:
  "getAllEventsInOrder scenario_codec two_orders =
     (Inr [select_star created_tuple, select_star shipped_tuple], two_orders_read)"
  by (simp add: store_defs scenario_defs)

lemma primary_key_empty_log: "primary_key empty_log"
  by (simp add: primary_key_def stored_def empty_log_def)

subsection \<open>Ordering of the log\<close>

lemma getAllEventsInOrder_fulfilled:
  assumes "verdict w = None" and "eventlist w \<noteq> None"
  shows "\<exists>rs. fst (getAllEventsInOrder cd w) = Inr rs"
  using assms
  by (auto simp: getAllEventsInOrder_def runQuery_def Client_query_def called_def
        exec_select_def
      split: option.splits)

text \<open>
  C1. Start from any database in which the primary key holds, make any sequence of
  \<^verbatim>\<open>addEvent\<close> calls, then call \<^verbatim>\<open>getAllEventsInOrder\<close>. If the table exists and the
  environment lets the call through, rows are returned. The rows returned carry strictly
  ascending sequence numbers; they are the stored log, each tuple once (none skipped, none
  doubled); and their sequence numbers are those that were in the log before together with
  those handed back by the fulfilled \<^verbatim>\<open>addEvent\<close> calls, each once.
\<close>

theorem getAllEventsInOrder_ordered_complete:
  assumes "primary_key w"
    and "addEvents cd events w = (outs, w1)"
  shows "(verdict w1 = None \<and> eventlist w1 \<noteq> None \<longrightarrow>
            (\<exists>rs. fst (getAllEventsInOrder cd w1) = Inr rs))
         \<and> (fst (getAllEventsInOrder cd w1) = Inr rs \<longrightarrow>
              (\<exists>ns. map sequenceNum_of rs = map Some ns \<and> sorted_wrt (<) ns
                 \<and> mset rs = mset (map select_star (stored w1))
                 \<and> mset ns = mset (map sequenceNum (stored w))
                               + mset (map (the \<circ> sequenceNum_of) (returned outs))))"
proof (intro conjI impI)
  assume "verdict w1 = None \<and> eventlist w1 \<noteq> None"
  then show "\<exists>rs. fst (getAllEventsInOrder cd w1) = Inr rs"
    by (simp add: getAllEventsInOrder_fulfilled)
next
  assume "fst (getAllEventsInOrder cd w1) = Inr rs"
  then have get: "getAllEventsInOrder cd w1 = (Inr rs, snd (getAllEventsInOrder cd w1))"
    by (simp add: prod_eq_iff)
  from addEvents_stored [OF assms(2)] assms(1) obtain ps where
    ps: "stored w1 = stored w @ ps" "returned outs = map returning ps"
    and pk: "primary_key w1"
    by blast
  from getAllEventsInOrder_Inr [OF get]
  have rs: "rs = map select_star (sort_key sequenceNum (stored w1))"
    by simp
  let ?ns = "map sequenceNum (sort_key sequenceNum (stored w1))"
  have "map sequenceNum_of rs = map Some ?ns"
    by (simp add: rs)
  moreover have "sorted ?ns"
    by (rule sorted_sort_key)
  moreover have "distinct ?ns"
  proof -
    have "mset ?ns = mset (map sequenceNum (stored w1))"
      by simp
    with pk show ?thesis
      unfolding primary_key_def by (metis mset_eq_imp_distinct_iff)
  qed
  moreover have "mset rs = mset (map select_star (stored w1))"
    by (simp add: rs)
  moreover have "mset ?ns = mset (map sequenceNum (stored w))
                         + mset (map (the \<circ> sequenceNum_of) (returned outs))"
    by (simp add: ps comp_def)
  ultimately show "\<exists>ns. map sequenceNum_of rs = map Some ns \<and> sorted_wrt (<) ns
                 \<and> mset rs = mset (map select_star (stored w1))
                 \<and> mset ns = mset (map sequenceNum (stored w))
                               + mset (map (the \<circ> sequenceNum_of) (returned outs))"
    unfolding strict_sorted_iff by blast
qed

theorem getAllEventsInOrder_ordered_complete_witness:
  "primary_key empty_log
   \<and> addEvents scenario_codec [order_created, order_shipped] empty_log =
       ([Inr [created_row], Inr [shipped_row]], two_orders)
   \<and> verdict two_orders = None \<and> eventlist two_orders \<noteq> None
   \<and> fst (getAllEventsInOrder scenario_codec two_orders) =
       Inr [select_star created_tuple, select_star shipped_tuple]
   \<and> (\<exists>ns. map sequenceNum_of [select_star created_tuple, select_star shipped_tuple]
             = map Some ns
          \<and> sorted_wrt (<) ns
          \<and> mset [select_star created_tuple, select_star shipped_tuple]
              = mset (map select_star (stored two_orders))
          \<and> mset ns = mset (map sequenceNum (stored empty_log))
                        + mset (map (the \<circ> sequenceNum_of)
                                 (returned [Inr [created_row], Inr [shipped_row]])))"
proof -
  have ok: "verdict two_orders = None \<and> eventlist two_orders \<noteq> None"
    by (simp add: verdict_def two_orders_def empty_log_def)
  have get: "fst (getAllEventsInOrder scenario_codec two_orders) =
               Inr [select_star created_tuple, select_star shipped_tuple]"
    by (simp add: run_select)
  from getAllEventsInOrder_ordered_complete
         [OF primary_key_empty_log run_both,
          of "[select_star created_tuple, select_star shipped_tuple]"]
    ok get primary_key_empty_log run_both
  show ?thesis by blast
qed

subsection \<open>What \<^verbatim>\<open>addEvent\<close> returns\<close>



subsection \<open>What the operations do to the stored log\<close>

lemma getAllEventsInOrder_stored: "stored (snd (getAllEventsInOrder cd w)) = stored w"
  by (auto simp: getAllEventsInOrder_def runQuery_def Client_query_def verdict_def called_def
        exec_select_def stored_def
      split: list.splits option.splits sum.splits prod.splits)

lemma createTables_stored: "stored (snd (createTables cd w)) = stored w"
  by (auto simp: createTables_def runQuery_def Client_query_def verdict_def called_def
        exec_create_def stored_def
      split: list.splits option.splits sum.splits prod.splits)

lemma init_stored: "stored (snd (init cd w)) = stored w"
proof (cases "Client_connect w")
  case (Pair r w1)
  then have w1: "stored w1 = stored w"
    by (auto simp: Client_connect_def verdict_def called_def stored_def
          split: list.splits option.splits)
  show ?thesis
    using Pair w1 by (cases r) (simp_all add: init_def createTables_stored)
qed

lemma shutdown_stored: "stored (snd (shutdown w)) = stored w"
  by (auto simp: shutdown_def Client_end_def verdict_def called_def stored_def
        split: list.splits option.splits)

lemma dropTables_stored:
  "stored (snd (dropTables cd w)) = stored w \<or> stored (snd (dropTables cd w)) = []"
  by (auto simp: dropTables_def runQuery_def Client_query_def verdict_def called_def
        exec_drop_def stored_def
      split: list.splits option.splits sum.splits prod.splits)

lemma reset_stored:
  "stored (snd (reset cd w)) = stored w \<or> stored (snd (reset cd w)) = []"
proof (cases "dropTables cd w")
  case (Pair r w1)
  with dropTables_stored [of cd w]
  have w1: "stored w1 = stored w \<or> stored w1 = []" by simp
  show ?thesis
  proof (cases r)
    case (Inl e)
    with Pair w1 show ?thesis by (simp add: reset_def)
  next
    case (Inr rows)
    obtain r2 w2 where c: "createTables cd w1 = (r2, w2)"
      by (cases "createTables cd w1")
    with createTables_stored [of cd w1] have "stored w2 = stored w1" by simp
    with Pair Inr c w1 show ?thesis
      by (cases r2) (auto simp: reset_def)
  qed
qed

lemma addEvent_stored:
  "stored (snd (addEvent cd event w)) = stored w
   \<or> (\<exists>p. stored (snd (addEvent cd event w)) = stored w @ [p])"
proof (cases "addEvent cd event w")
  case (Pair r w')
  then show ?thesis
    using addEvent_Inl [of cd event w _ w'] addEvent_appends [of cd event w _ w']
    by (cases r) auto
qed

text \<open>
  C7. A fulfilled \<^verbatim>\<open>addEvent\<close> leaves the log one tuple longer, the earlier tuples unchanged
  in front of the new one. No operation rewrites a stored tuple: \<^verbatim>\<open>addEvent\<close> keeps the log
  or appends to it, \<^verbatim>\<open>getAllEventsInOrder\<close>, \<^verbatim>\<open>init\<close> and \<^verbatim>\<open>shutdown\<close> keep it, and \<^verbatim>\<open>reset\<close>
  keeps it (when its \<^verbatim>\<open>DROP TABLE\<close> fails) or leaves no tuple at all.
\<close>

theorem appended_events_are_never_rewritten:
  "(addEvent cd event w = (Inr rows, w') \<longrightarrow> (\<exists>p. stored w' = stored w @ [p]))
   \<and> (stored (snd (addEvent cd event w)) = stored w
        \<or> (\<exists>p. stored (snd (addEvent cd event w)) = stored w @ [p]))
   \<and> stored (snd (getAllEventsInOrder cd w)) = stored w
   \<and> stored (snd (init cd w)) = stored w
   \<and> stored (snd (shutdown w)) = stored w
   \<and> (stored (snd (reset cd w)) = stored w \<or> stored (snd (reset cd w)) = [])"
  using addEvent_appends [of cd event w rows w'] addEvent_stored [of cd event w]
    getAllEventsInOrder_stored [of cd w] init_stored [of cd w] shutdown_stored [of w]
    reset_stored [of cd w]
  by blast

theorem appended_events_are_never_rewritten_witness:
  "addEvent scenario_codec order_shipped one_order = (Inr [shipped_row], two_orders)
   \<and> stored one_order = [created_tuple]
   \<and> stored two_orders = [created_tuple] @ [shipped_tuple]
   \<and> (\<exists>p. stored two_orders = stored one_order @ [p])
   \<and> stored (snd (getAllEventsInOrder scenario_codec one_order)) = stored one_order
   \<and> stored (snd (init scenario_codec one_order)) = stored one_order
   \<and> stored (snd (shutdown one_order)) = stored one_order"
  using appended_events_are_never_rewritten
      [of scenario_codec order_shipped one_order "[shipped_row]" two_orders]
    run_shipped
  by (simp add: stored_def one_order_def two_orders_def)

subsection \<open>Reset\<close>








subsection \<open>Payloads\<close>

lemma col_select_star [simp]:
  "col (select_star p) Data = Some (CJson (data p))"
  "col (select_star p) Meta = Some (CJson (meta p))"
  by (simp_all add: col_def select_star_def)

lemma col_returning [simp]:
  "col (returning p) Data = None"
  "col (returning p) Meta = None"
  by (simp_all add: col_def returning_def)






subsection \<open>Construction\<close>



subsection \<open>Failures of the backend\<close>

lemma runQuery_call:
  "(case values of
      Some vs \<Rightarrow> Client_query cd query (Some vs) w
    | None \<Rightarrow> Client_query cd query None w) = Client_query cd query values w"
  by (cases "values") simp_all

lemma runQuery_rethrows:
  assumes "Client_query cd query values w = (Inl err, w')"
  shows "runQuery cd query values w =
           (Inl err, w'\<lparr>console := console w' @
              [''Query error <'' @ query @ ''> ['' @ show_values values @ '']: '' @ message err]\<rparr>)"
  using assms by (simp add: runQuery_def runQuery_call)

lemma runQuery_returns:
  assumes "Client_query cd query values w = (Inr rows, w')"
  shows "runQuery cd query values w = (Inr rows, w')"
  using assms by (simp add: runQuery_def runQuery_call)

lemma runQuery_one_call:
  "wire (snd (runQuery cd query values w)) = wire w @ [Query query values]"
  by (auto simp: runQuery_def runQuery_call Client_query_def called_def exec_sql_def
        exec_insert_def exec_select_def exec_create_def exec_drop_def Let_def
      split: option.splits list.splits sum.splits prod.splits)

lemma reset_rethrows:
  "dropTables cd w = (Inl err, w1) \<Longrightarrow> reset cd w = (Inl err, w1)"
  "dropTables cd w = (Inr rows, w1) \<Longrightarrow> createTables cd w1 = (Inl err, w2) \<Longrightarrow>
     reset cd w = (Inl err, w2)"
  by (simp_all add: reset_def)

lemma init_rethrows_connect:
  "Client_connect w = (Inl err, w1) \<Longrightarrow> init cd w = (Inl err, w1)"
  by (simp add: init_def)

lemma init_creates:
  assumes "verdict w = None" and "verdict (called Connect w) = None"
  shows "fst (init cd w) = Inr () \<and> eventlist (snd (init cd w)) \<noteq> None"
  using assms
  by (simp add: init_def createTables_def runQuery_def Client_query_def Client_connect_def
        exec_create_def called_def
      split: option.splits)

text \<open>
  C5 fails for \<^verbatim>\<open>init\<close>. On \<open>create_denied\<close> the connection is accepted, the query of
  \<^verbatim>\<open>createTables\<close> fails and \<^verbatim>\<open>runQuery\<close> throws its error again, but \<^verbatim>\<open>init\<close> did not await
  \<^verbatim>\<open>createTables\<close> and is fulfilled. (\<^verbatim>\<open>addEvent\<close>, \<^verbatim>\<open>getAllEventsInOrder\<close> and \<^verbatim>\<open>reset\<close> do
  throw the error of their query again, after one call and no retry: \<open>runQuery_rethrows\<close>,
  \<open>runQuery_one_call\<close>, \<open>reset_rethrows\<close>.)
\<close>

theorem init_swallows_createTables_failure:
  "Client_connect create_denied = (Inr (), create_denied_connected)
   \<and> createTables scenario_codec create_denied_connected
       = (Inl (Error ''permission denied for schema public''), create_denied_after)
   \<and> init scenario_codec create_denied = (Inr (), create_denied_after)"
  by (simp add: init_def createTables_def runQuery_def Client_query_def Client_connect_def
        verdict_def called_def create_denied_def create_denied_connected_def create_denied_after_def
        no_table_def show_values_def)

subsection \<open>Provisioning of the table\<close>

text \<open>
  C8 fails for \<^verbatim>\<open>init\<close>, by the same missing \<^verbatim>\<open>await\<close>: on \<open>create_denied\<close>, \<^verbatim>\<open>init\<close> is
  fulfilled and the table still does not exist. (After a fulfilled \<^verbatim>\<open>reset\<close> the table
  exists, empty and with a new sequence: \<open>reset_Inr\<close>; after an \<^verbatim>\<open>init\<close> whose two calls
  the environment lets through it exists as well: \<open>init_creates\<close>.)
\<close>

theorem init_fulfilled_without_table:
  "fst (init scenario_codec create_denied) = Inr ()
   \<and> eventlist (snd (init scenario_codec create_denied)) = None"
  by (simp add: init_def createTables_def runQuery_def Client_query_def Client_connect_def
        verdict_def called_def create_denied_def no_table_def)

subsection \<open>Shutdown\<close>

text \<open>
  \<^verbatim>\<open>shutdown\<close> makes one call, \<^verbatim>\<open>end()\<close>, on the client, whether or not \<^verbatim>\<open>init\<close> was ever
  called, and its outcome is the outcome of that call; the table is not touched.
\<close>

lemma shutdown_forwards:
  "fst (shutdown w) = (case verdict w of Some e \<Rightarrow> Inl e | None \<Rightarrow> Inr ())"
  "wire (snd (shutdown w)) = wire w @ [End]"
  "eventlist (snd (shutdown w)) = eventlist w"
  by (simp_all add: shutdown_def Client_end_def called_def split: option.splits)

subsection \<open>The default authorization header of the test stack\<close>

lemma fold_set_header:
  "header (fold (\<lambda>h r. set_header (fst h) (snd h) r) hs req) = header req ++ map_of (rev hs)"
proof (induction hs arbitrary: req)
  case Nil
  then show ?case by simp
next
  case (Cons h hs)
  have "header (set_header (fst h) (snd h) req) = header req ++ [fst h \<mapsto> snd h]"
    by (simp add: set_header_def)
  then show ?case
    using Cons.IH [of "set_header (fst h) (snd h) req"]
    by (cases h) (simp add: map_add_assoc del: map_add_upd)
qed

lemma header_prepareRequest:
  "header (prepareRequest auth meth pth hs withAuth) =
     (if truthy auth \<and> withAuth then [quoted_Authorization \<mapsto> ''Bearer '' @ the auth]
      else Map.empty) ++ supplied hs"
  by (auto simp: prepareRequest_def supplied_def fold_set_header set_header_def Let_def
        split: option.splits)

lemma quoted_Authorization_neq: "quoted_Authorization \<noteq> ''Authorization''"
  by (simp add: quoted_Authorization_def)

text \<open>
  C10. Let the test stack be built with a non-empty \<^verbatim>\<open>defaultAuthHeaderValue\<close>. In every
  request prepared with \<^verbatim>\<open>withAuth\<close> on, and so in every request of \<^verbatim>\<open>testGet\<close>, \<^verbatim>\<open>testPost\<close>,
  \<^verbatim>\<open>testPut\<close> and \<^verbatim>\<open>testDelete\<close>, the bearer token stands under the header name
  \<^verbatim>\<open>'Authorization'\<close> with its two quote characters (unless the caller's own headers set
  that very name, which then wins), and the header \<^verbatim>\<open>Authorization\<close> holds only what the
  caller's own headers give it.
\<close>

theorem default_bearer_under_quoted_name:
  assumes "auth = Some token" and "token \<noteq> []"
  shows "quoted_Authorization = CHR 0x27 # ''Authorization'' @ [CHR 0x27]
         \<and> (let ok = (\<lambda>hs r.
                  header r quoted_Authorization =
                    Some (case supplied hs quoted_Authorization of
                            None \<Rightarrow> ''Bearer '' @ token
                          | Some v \<Rightarrow> v)
                  \<and> header r ''Authorization'' = supplied hs ''Authorization'')
            in ok hs (prepareRequest auth meth pth hs True)
               \<and> ok (headers params) (request (testGet auth params :: 'b Sent))
               \<and> ok (headers bparams) (request (testPost auth bparams :: 'b Sent))
               \<and> ok (headers bparams) (request (testPut auth bparams :: 'b Sent))
               \<and> ok (headers params) (request (testDelete auth params :: 'b Sent)))"
proof -
  have hd: "header (prepareRequest auth meth' pth' hs' True)
              = [quoted_Authorization \<mapsto> ''Bearer '' @ token] ++ supplied hs'"
    for meth' pth' hs'
    using assms by (simp add: header_prepareRequest truthy_def)
  have ok: "header r quoted_Authorization =
              Some (case supplied hs' quoted_Authorization of
                      None \<Rightarrow> ''Bearer '' @ token
                    | Some v \<Rightarrow> v)
            \<and> header r ''Authorization'' = supplied hs' ''Authorization''"
    if "header r = [quoted_Authorization \<mapsto> ''Bearer '' @ token] ++ supplied hs'"
    for r hs'
    using that quoted_Authorization_neq
    by (auto simp: map_add_def split: option.splits)
  show ?thesis
    unfolding Let_def
    by (intro conjI ok)
       (simp_all add: hd testGet_def testPost_def testPut_def testDelete_def
          quoted_Authorization_def)
qed

theorem default_bearer_under_quoted_name_witness:
  "header (request (testGet (Some ''secret'')
       \<lparr>path = ''/orders'', headers = Some [(''Accept'', ''application/json'')],
        expectedResponseCode = None\<rparr> :: unit Sent))
     (CHR 0x27 # ''Authorization'' @ [CHR 0x27]) = Some ''Bearer secret''
   \<and> header (request (testGet (Some ''secret'')
       \<lparr>path = ''/orders'', headers = Some [(''Accept'', ''application/json'')],
        expectedResponseCode = None\<rparr> :: unit Sent)) ''Authorization'' = None"
  using default_bearer_under_quoted_name
      [of "Some ''secret''" "''secret''" None "''get''" "''/orders''"
          "\<lparr>path = ''/orders'', headers = Some [(''Accept'', ''application/json'')],
            expectedResponseCode = None\<rparr>"
          "\<lparr>path = ''/orders'', headers = Some [(''Accept'', ''application/json'')],
            expectedResponseCode = None, body = None :: unit option\<rparr>"]
  by (simp add: supplied_def Let_def quoted_Authorization_def)

end
